theory Spec2Isabelle
  imports Main "HOL-Library.AList"
begin

section \<open>JavaScript values\<close>

text \<open>
  The values that flow through the API client: request configs, response envelopes,
  errors and cached payloads are all plain JavaScript values. Numbers are the integers
  (status codes, timestamps and delays are), objects are association lists from property
  names to values.
\<close>

datatype jsval =
    JsUndefined
  | JsNull
  | JsBool bool
  | JsNum int
  | JsStr string
  | JsObj "(string \<times> jsval) list"

fun truthy :: "jsval \<Rightarrow> bool" where
  "truthy JsUndefined = False"
| "truthy JsNull = False"
| "truthy (JsBool b) = b"
| "truthy (JsNum n) = (n \<noteq> 0)"
| "truthy (JsStr s) = (s \<noteq> [])"
| "truthy (JsObj kvs) = True"

definition TypeError :: "string \<Rightarrow> jsval" where
  "TypeError msg = JsObj [(''name'', JsStr ''TypeError''), (''message'', JsStr msg)]"

text \<open>
  Reading a property: \<open>Inl\<close> is the TypeError that reading a property of \<open>null\<close> or
  \<open>undefined\<close> throws; a missing property, or any property of a primitive (none of the
  names read here exists on a prototype), is \<open>undefined\<close>.
\<close>

fun get_prop :: "jsval \<Rightarrow> string \<Rightarrow> jsval + jsval" where
  "get_prop (JsObj kvs) k = Inr (case map_of kvs k of Some v \<Rightarrow> v | None \<Rightarrow> JsUndefined)"
| "get_prop JsUndefined k = Inl (TypeError ''Cannot read properties of undefined'')"
| "get_prop JsNull k = Inl (TypeError ''Cannot read properties of null'')"
| "get_prop v k = Inr JsUndefined"

text \<open>Object spread \<open>{...obj, ...src}\<close>: the properties of \<open>src\<close> override those of \<open>obj\<close>.\<close>

definition spread :: "(string \<times> jsval) list \<Rightarrow> (string \<times> jsval) list \<Rightarrow> (string \<times> jsval) list" where
  "spread obj src = fold (\<lambda>(k, v) acc. AList.update k v acc) src obj"

text \<open>\<open>s.includes(sub)\<close>: \<open>sub\<close> occurs in \<open>s\<close> as a contiguous substring.\<close>

fun str_includes :: "string \<Rightarrow> string \<Rightarrow> bool" where
  "str_includes [] sub = (sub = [])"
| "str_includes (c # cs) sub = (take (length sub) (c # cs) = sub \<or> str_includes cs sub)"

text \<open>
  How a call of a callback completes: it returns a value (or a promise that resolves to
  it), returns a promise that rejects, or throws synchronously. The difference between the
  last two matters inside \<open>try\<close>: \<open>return f(x)\<close> without \<open>await\<close> lets a rejected promise
  pass, while a synchronous throw is caught.
\<close>

datatype completion = Returns jsval | Rejects jsval | Throws jsval

text \<open>How an \<open>async\<close> function that ends with that completion settles: \<open>Inl\<close> is rejection.\<close>

fun settle :: "completion \<Rightarrow> jsval + jsval" where
  "settle (Returns v) = Inr v"
| "settle (Rejects e) = Inl e"
| "settle (Throws e) = Inl e"

section \<open>The state of ApiClient and of the browser\<close>

record cache_entry =
  data :: jsval
  timestamp :: int
  timeout :: int

text \<open>
  The static fields of \<open>ApiClient\<close> that hold data, together with the parts of the browser
  the client reads and writes: \<open>localStorage\<close>, \<open>window.location.href\<close> and the clock read by
  \<open>Date.now()\<close>. The record is extensible: the extension is whatever further state callbacks
  close over.
\<close>

record world =
  baseUrl :: string
  authToken :: "string option"
  cache :: "string \<rightharpoonup> cache_entry"
  localStorage :: "string \<rightharpoonup> string"
  location_href :: string
  clock :: int

type_synonym 'a callback = "jsval \<Rightarrow> 'a world_scheme \<Rightarrow> completion \<times> 'a world_scheme"

record 'a response_interceptor =
  onFulfilled :: "'a callback option"
  onRejected :: "'a callback option"

record 'a api_client =
  world :: "'a world_scheme"
  requestInterceptors :: "'a callback list"
  responseInterceptors :: "'a response_interceptor list"

text \<open>
  Callbacks act on the \<open>world\<close> only: the two interceptor lists are arguments of a
  request and do not change while it runs. An interceptor that changes its argument in
  place is modelled as returning the changed value.
\<close>

text \<open>What \<open>fetch\<close> resolves to, as far as \<open>request\<close> reads it.\<close>

record raw_response =
  r_status :: int
  r_statusText :: string
  r_headers :: "(string \<times> string) list"
  r_ok :: bool
  r_json :: "jsval + jsval"
  r_text :: "jsval + string"

text \<open>
  The globals the client calls and does not define: \<open>fetch\<close> (\<open>Inl\<close>: the promise rejects),
  \<open>AuthController\<close> (\<open>None\<close>: \<open>typeof AuthController\<close> is \<open>'undefined'\<close>; otherwise the effect of
  its \<open>logout\<close>), \<open>new URLSearchParams(params).toString()\<close> and \<open>JSON.stringify(params)\<close>.
\<close>

record ('a, 'p) browser =
  fetch :: "string \<Rightarrow> jsval \<Rightarrow> 'a world_scheme \<Rightarrow> (jsval + raw_response) \<times> 'a world_scheme"
  AuthController :: "('a world_scheme \<Rightarrow> 'a world_scheme) option"
  URLSearchParams_toString :: "'p \<Rightarrow> string"
  JSON_stringify :: "'p \<Rightarrow> string"

text \<open>The calls \<open>request\<close> makes, in the order it makes them, each with its argument.\<close>

datatype event =
    RequestInterceptor_called nat jsval
  | Fetch_called string jsval
  | OnFulfilled_called nat jsval
  | OnRejected_called nat jsval

section \<open>ApiClient: interceptors\<close>

definition addRequestInterceptor :: "'a callback \<Rightarrow> 'a api_client \<Rightarrow> 'a api_client" where
  "addRequestInterceptor interceptor c =
     c\<lparr>requestInterceptors := requestInterceptors c @ [interceptor]\<rparr>"

definition addResponseInterceptor ::
  "'a callback option \<Rightarrow> 'a callback option \<Rightarrow> 'a api_client \<Rightarrow> 'a api_client" where
  "addResponseInterceptor onFulfilled' onRejected' c =
     c\<lparr>responseInterceptors := responseInterceptors c @
          [\<lparr>onFulfilled = onFulfilled', onRejected = onRejected'\<rparr>]\<rparr>"

definition removeItem :: "string \<Rightarrow> 'a world_scheme \<Rightarrow> 'a world_scheme" where
  "removeItem key w = w\<lparr>localStorage := (localStorage w)(key := None)\<rparr>"

definition handleUnauthorized :: "('a, 'p) browser \<Rightarrow> 'a world_scheme \<Rightarrow> 'a world_scheme" where
  "handleUnauthorized br w =
     (let w = w\<lparr>authToken := None\<rparr>;
          w = removeItem ''authToken'' w;
          w = removeItem ''user'' w
      in case AuthController br of
           Some logout \<Rightarrow> logout w
         | None \<Rightarrow> w\<lparr>location_href := ''../index.html''\<rparr>)"

text \<open>
  The request interceptor of \<open>setupInterceptors\<close>. The arrow function is strict code, so
  setting \<open>Authorization\<close> on a \<open>headers\<close> that is not an object throws a TypeError.
\<close>

definition auth_request_interceptor :: "'a callback" where
  "auth_request_interceptor config w =
     (case authToken w of
        None \<Rightarrow> (Returns config, w)
      | Some token \<Rightarrow>
          if token \<noteq> [] then
            (case config of
               JsObj kvs \<Rightarrow>
                 (case map_of kvs ''headers'' of
                    Some (JsObj hs) \<Rightarrow>
                      (Returns (JsObj (AList.update ''headers''
                         (JsObj (AList.update ''Authorization'' (JsStr (''Bearer '' @ token)) hs))
                         kvs)), w)
                  | _ \<Rightarrow> (Throws (TypeError ''Cannot set properties''), w))
             | _ \<Rightarrow> (Throws (TypeError ''Cannot set properties''), w))
          else (Returns config, w))"

text \<open>The response interceptor of \<open>setupInterceptors\<close>: its two callbacks.\<close>

definition builtin_onFulfilled :: "'a callback" where
  "builtin_onFulfilled response w = (Returns response, w)"

text \<open>\<open>error.response?.status\<close>; \<open>Inl\<close> is the TypeError of reading \<open>response\<close> off \<open>null\<close> or \<open>undefined\<close>.\<close>

definition response_status :: "jsval \<Rightarrow> jsval + jsval" where
  "response_status error =
     (case get_prop error ''response'' of
        Inl e \<Rightarrow> Inl e
      | Inr r \<Rightarrow> if r = JsUndefined \<or> r = JsNull then Inr JsUndefined else get_prop r ''status'')"

definition builtin_onRejected :: "('a, 'p) browser \<Rightarrow> 'a callback" where
  "builtin_onRejected br error w =
     (case response_status error of
        Inl e \<Rightarrow> (Throws e, w)
      | Inr status \<Rightarrow>
          if status = JsNum 401
          then (Rejects error, handleUnauthorized br w)
          else (Rejects error, w))"

definition setupInterceptors :: "('a, 'p) browser \<Rightarrow> 'a api_client \<Rightarrow> 'a api_client" where
  "setupInterceptors br c =
     addResponseInterceptor (Some builtin_onFulfilled) (Some (builtin_onRejected br))
       (addRequestInterceptor auth_request_interceptor c)"

text \<open>The pair that \<open>setupInterceptors\<close> pushes onto \<open>responseInterceptors\<close>.\<close>

definition builtin_response_interceptor :: "('a, 'p) browser \<Rightarrow> 'a response_interceptor" where
  "builtin_response_interceptor br =
     \<lparr>onFulfilled = Some builtin_onFulfilled, onRejected = Some (builtin_onRejected br)\<rparr>"

definition init :: "('a, 'p) browser \<Rightarrow> 'a api_client \<Rightarrow> 'a api_client" where
  "init br c =
     setupInterceptors br
       (c\<lparr>world := (world c)\<lparr>authToken := localStorage (world c) ''authToken''\<rparr>\<rparr>)"

definition setBaseUrl :: "string \<Rightarrow> 'a api_client \<Rightarrow> 'a api_client" where
  "setBaseUrl url c = c\<lparr>world := (world c)\<lparr>baseUrl := url\<rparr>\<rparr>"

text \<open>
  The class as its static initialisers leave it, before \<open>ApiClient.init()\<close> runs at the end
  of the script: no interceptors, no token, an empty cache. The browser's own state is
  whatever it is.
\<close>

definition fresh_client :: "'a world_scheme \<Rightarrow> 'a api_client" where
  "fresh_client w =
     \<lparr>world = w\<lparr>baseUrl := ''https://your-google-cloud-function-url.com/api'',
                 authToken := None, cache := Map.empty\<rparr>,
      requestInterceptors = [],
      responseInterceptors = []\<rparr>"

text \<open>
  A registration made by a caller after the script has loaded: a call of
  \<open>addRequestInterceptor\<close> or of \<open>addResponseInterceptor\<close>.
\<close>

datatype 'a registration =
    Register_request "'a callback"
  | Register_response "'a callback option" "'a callback option"

fun register :: "'a registration \<Rightarrow> 'a api_client \<Rightarrow> 'a api_client" where
  "register (Register_request interceptor) c = addRequestInterceptor interceptor c"
| "register (Register_response f g) c = addResponseInterceptor f g c"

section \<open>ApiClient.request\<close>

definition defaultHeaders :: "(string \<times> jsval) list" where
  "defaultHeaders =
     [(''Content-Type'', JsStr ''application/json''), (''Accept'', JsStr ''application/json'')]"

text \<open>
  The object literal \<open>{ method: 'GET', headers: { ...this.defaultHeaders }, ...options }\<close>.
  \<open>options\<close> is a plain object, given by its properties.
\<close>

definition initial_config :: "(string \<times> jsval) list \<Rightarrow> jsval" where
  "initial_config options =
     JsObj (spread [(''method'', JsStr ''GET''), (''headers'', JsObj (spread [] defaultHeaders))]
              options)"

text \<open>
  \<open>config\<close> is declared with \<open>const\<close>, so the assignment \<open>config = interceptor(config)\<close> in
  the loop evaluates its right-hand side and then throws a TypeError instead of binding
  the value.
\<close>

definition assign_config :: "jsval \<Rightarrow> jsval + jsval" where
  "assign_config v = Inl (TypeError ''Assignment to constant variable.'')"

text \<open>
  The loop over \<open>this.requestInterceptors\<close>, outside the \<open>try\<close>: \<open>Inl\<close> is the exception
  that leaves \<open>request\<close>, \<open>Inr\<close> the config the loop ends with. An interceptor that returns
  a rejected promise returns a value like any other, which the assignment then fails to
  bind.
\<close>

fun apply_request_interceptors ::
  "'a callback list \<Rightarrow> nat \<Rightarrow> jsval \<Rightarrow> 'a world_scheme \<Rightarrow>
     (jsval + jsval) \<times> event list \<times> 'a world_scheme" where
  "apply_request_interceptors [] i config w = (Inr config, [], w)"
| "apply_request_interceptors (interceptor # rest) i config w =
     (case interceptor config w of
        (Throws e, w') \<Rightarrow> (Inl e, [RequestInterceptor_called i config], w')
      | (Rejects e, w') \<Rightarrow>
          (Inl (TypeError ''Assignment to constant variable.''),
           [RequestInterceptor_called i config], w')
      | (Returns v, w') \<Rightarrow>
          (case assign_config v of
             Inl e \<Rightarrow> (Inl e, [RequestInterceptor_called i config], w')
           | Inr config' \<Rightarrow>
               (case apply_request_interceptors rest (Suc i) config' w' of
                  (r, tr, w'') \<Rightarrow> (r, RequestInterceptor_called i config # tr, w''))))"

text \<open>
  The body is parsed as JSON when the \<open>content-type\<close> header contains
  \<open>application/json\<close>, as text otherwise; \<open>Inl\<close> is the error \<open>response.json()\<close> or
  \<open>response.text()\<close> rejects with. Header names are kept in lower case, as \<open>Headers\<close> does.
\<close>

definition parse_body :: "raw_response \<Rightarrow> jsval + jsval" where
  "parse_body response =
     (case map_of (r_headers response) ''content-type'' of
        Some contentType \<Rightarrow>
          if contentType \<noteq> [] \<and> str_includes contentType ''application/json''
          then r_json response
          else map_sum id JsStr (r_text response)
      | None \<Rightarrow> map_sum id JsStr (r_text response))"

definition responseObj :: "raw_response \<Rightarrow> jsval \<Rightarrow> jsval" where
  "responseObj response d =
     JsObj [(''data'', d),
            (''status'', JsNum (r_status response)),
            (''statusText'', JsStr (r_statusText response)),
            (''headers'', JsObj (map (\<lambda>(k, v). (k, JsStr v)) (r_headers response))),
            (''ok'', JsBool (r_ok response))]"

text \<open>
  The loop over \<open>this.responseInterceptors\<close> in the \<open>try\<close> block, with the
  \<open>return responseObj\<close> that follows it.
\<close>

fun apply_onFulfilled ::
  "'a response_interceptor list \<Rightarrow> nat \<Rightarrow> jsval \<Rightarrow> 'a world_scheme \<Rightarrow>
     completion \<times> event list \<times> 'a world_scheme" where
  "apply_onFulfilled [] i envelope w = (Returns envelope, [], w)"
| "apply_onFulfilled (interceptor # rest) i envelope w =
     (case onFulfilled interceptor of
        Some f \<Rightarrow> (case f envelope w of (c, w') \<Rightarrow> (c, [OnFulfilled_called i envelope], w'))
      | None \<Rightarrow> apply_onFulfilled rest (Suc i) envelope w)"

text \<open>The loop in the \<open>catch\<close> block, with the \<open>throw error\<close> that follows it.\<close>

fun apply_onRejected ::
  "'a response_interceptor list \<Rightarrow> nat \<Rightarrow> jsval \<Rightarrow> 'a world_scheme \<Rightarrow>
     completion \<times> event list \<times> 'a world_scheme" where
  "apply_onRejected [] i error w = (Throws error, [], w)"
| "apply_onRejected (interceptor # rest) i error w =
     (case onRejected interceptor of
        Some f \<Rightarrow> (case f error w of (c, w') \<Rightarrow> (c, [OnRejected_called i error], w'))
      | None \<Rightarrow> apply_onRejected rest (Suc i) error w)"

definition catch_block ::
  "'a response_interceptor list \<Rightarrow> jsval \<Rightarrow> 'a world_scheme \<Rightarrow>
     (jsval + jsval) \<times> event list \<times> 'a world_scheme" where
  "catch_block interceptors error w =
     (case apply_onRejected interceptors 0 error w of (c, tr, w') \<Rightarrow> (settle c, tr, w'))"

text \<open>
  The first half of the \<open>try\<close> block: \<open>fetch\<close>, the parsing of the body and the
  construction of the response envelope. \<open>Inl\<close> is an error thrown before there is an
  envelope: \<open>fetch\<close> rejected, or the body did not parse.
\<close>

definition receive ::
  "('a, 'p) browser \<Rightarrow> string \<Rightarrow> jsval \<Rightarrow> 'a world_scheme \<Rightarrow> (jsval + jsval) \<times> 'a world_scheme" where
  "receive br url config w =
     (case fetch br url config w of
        (Inl error, w1) \<Rightarrow> (Inl error, w1)
      | (Inr response, w1) \<Rightarrow>
          (case parse_body response of
             Inl error \<Rightarrow> (Inl error, w1)
           | Inr d \<Rightarrow> (Inr (responseObj response d), w1)))"

text \<open>
  The \<open>try\<close> statement of \<open>request\<close>. Whatever is thrown inside \<open>try\<close> reaches \<open>catch\<close>: an
  error of \<open>receive\<close>, and a success callback that throws synchronously. A success
  callback that returns a rejected promise is returned without \<open>await\<close>, so \<open>catch\<close> does
  not see it.
\<close>

definition try_block ::
  "('a, 'p) browser \<Rightarrow> 'a response_interceptor list \<Rightarrow> string \<Rightarrow> jsval \<Rightarrow> 'a world_scheme \<Rightarrow>
     (jsval + jsval) \<times> event list \<times> 'a world_scheme" where
  "try_block br interceptors url config w =
     (case receive br url config w of
        (Inl error, w1) \<Rightarrow>
          (case catch_block interceptors error w1 of
             (r, tr, w2) \<Rightarrow> (r, Fetch_called url config # tr, w2))
      | (Inr envelope, w1) \<Rightarrow>
          (case apply_onFulfilled interceptors 0 envelope w1 of
             (Throws error, tr, w2) \<Rightarrow>
               (case catch_block interceptors error w2 of
                  (r, tr', w3) \<Rightarrow> (r, Fetch_called url config # tr @ tr', w3))
           | (c, tr, w2) \<Rightarrow> (settle c, Fetch_called url config # tr, w2)))"

text \<open>
  \<open>request(endpoint, options)\<close>: how the returned promise settles (\<open>Inl\<close>: it rejects), the
  calls made on the way, and the state afterwards.
\<close>

definition request ::
  "('a, 'p) browser \<Rightarrow> 'a api_client \<Rightarrow> string \<Rightarrow> (string \<times> jsval) list \<Rightarrow>
     (jsval + jsval) \<times> event list \<times> 'a world_scheme" where
  "request br c endpoint options =
     (let url = baseUrl (world c) @ endpoint;
          config = initial_config options
      in case apply_request_interceptors (requestInterceptors c) 0 config (world c) of
           (Inl e, tr, w1) \<Rightarrow> (Inl e, tr, w1)
         | (Inr config', tr, w1) \<Rightarrow>
             (case try_block br (responseInterceptors c) url config' w1 of
                (r, tr', w2) \<Rightarrow> (r, tr @ tr', w2)))"

definition get ::
  "('a, 'p) browser \<Rightarrow> 'a api_client \<Rightarrow> string \<Rightarrow> 'p \<Rightarrow>
     (jsval + jsval) \<times> event list \<times> 'a world_scheme" where
  "get br c endpoint params =
     (let queryString = URLSearchParams_toString br params;
          url = (if queryString \<noteq> [] then endpoint @ ''?'' @ queryString else endpoint)
      in request br c url [(''method'', JsStr ''GET'')])"

section \<open>ApiClient: the cache\<close>

definition cacheTimeout :: int where
  "cacheTimeout = 5 * 60 * 1000"

text \<open>\<open>setCache(key, data, timeout = this.cacheTimeout)\<close>; \<open>None\<close> is an omitted timeout.\<close>

definition setCache :: "string \<Rightarrow> jsval \<Rightarrow> int option \<Rightarrow> 'a world_scheme \<Rightarrow> 'a world_scheme" where
  "setCache key d timeout' w =
     w\<lparr>cache := (cache w)(key \<mapsto>
          \<lparr>data = d, timestamp = clock w,
           timeout = (case timeout' of Some t \<Rightarrow> t | None \<Rightarrow> cacheTimeout)\<rparr>)\<rparr>"

text \<open>\<open>getCache(key)\<close>: the value returned (\<open>null\<close> when absent) and the state afterwards.\<close>

definition getCache :: "string \<Rightarrow> 'a world_scheme \<Rightarrow> jsval \<times> 'a world_scheme" where
  "getCache key w =
     (case cache w key of
        None \<Rightarrow> (JsNull, w)
      | Some cached \<Rightarrow>
          if clock w - timestamp cached > timeout cached
          then (JsNull, w\<lparr>cache := (cache w)(key := None)\<rparr>)
          else (data cached, w))"

definition clearCache :: "'a world_scheme \<Rightarrow> 'a world_scheme" where
  "clearCache w = w\<lparr>cache := Map.empty\<rparr>"

text \<open>
  \<open>getWithCache(endpoint, params, cacheKey = null)\<close>; \<open>None\<close> is a \<open>cacheKey\<close> that is
  \<open>null\<close> or omitted. Both \<open>cacheKey ||\<close> and \<open>if (cached)\<close> test truthiness.
\<close>

definition getWithCache ::
  "('a, 'p) browser \<Rightarrow> 'a api_client \<Rightarrow> string \<Rightarrow> 'p \<Rightarrow> string option \<Rightarrow>
     (jsval + jsval) \<times> event list \<times> 'a world_scheme" where
  "getWithCache br c endpoint params cacheKey =
     (let key = (case cacheKey of
                   Some k \<Rightarrow> if k \<noteq> [] then k else endpoint @ JSON_stringify br params
                 | None \<Rightarrow> endpoint @ JSON_stringify br params)
      in case getCache key (world c) of
           (cached, w1) \<Rightarrow>
             if truthy cached
             then (Inr (JsObj [(''data'', cached), (''fromCache'', JsBool True)]), [], w1)
             else (case get br (c\<lparr>world := w1\<rparr>) endpoint params of
                     (Inl e, tr, w2) \<Rightarrow> (Inl e, tr, w2)
                   | (Inr response, tr, w2) \<Rightarrow>
                       (case get_prop response ''data'' of
                          Inl e \<Rightarrow> (Inl e, tr, w2)
                        | Inr d \<Rightarrow> (Inr response, tr, setCache key d None w2))))"

section \<open>ApiClient.retryRequest\<close>

datatype retry_event = RequestFn_called | SetTimeout int

text \<open>
  The \<open>for\<close> loop of \<open>retryRequest\<close> from index \<open>i\<close> on. \<open>requestFn\<close> is any callable with
  effects on a state; \<open>wait ms\<close> is what happens to that state while the loop is suspended
  on \<open>setTimeout(resolve, ms)\<close>. A loop that ends without returning yields \<open>undefined\<close>.
\<close>

function retry_loop ::
  "('s \<Rightarrow> (jsval + jsval) \<times> 's) \<Rightarrow> (int \<Rightarrow> 's \<Rightarrow> 's) \<Rightarrow> int \<Rightarrow> int \<Rightarrow> int \<Rightarrow> 's \<Rightarrow>
     (jsval + jsval) \<times> retry_event list \<times> 's" where
  "retry_loop requestFn wait maxRetries delay i s =
     (if i < maxRetries then
        (case requestFn s of
           (Inr v, s') \<Rightarrow> (Inr v, [RequestFn_called], s')
         | (Inl error, s') \<Rightarrow>
             if i = maxRetries - 1 then (Inl error, [RequestFn_called], s')
             else (case retry_loop requestFn wait maxRetries delay (i + 1)
                          (wait (delay * 2 ^ nat i) s') of
                     (r, tr, s'') \<Rightarrow>
                       (r, RequestFn_called # SetTimeout (delay * 2 ^ nat i) # tr, s'')))
      else (Inr JsUndefined, [], s))"
  by pat_completeness auto
termination
  by (relation "measure (\<lambda>(requestFn, wait, maxRetries, delay, i, s). nat (maxRetries - i))") auto

text \<open>\<open>retryRequest(requestFn, maxRetries = 3, delay = 1000)\<close>; \<open>None\<close> is an omitted argument.\<close>

definition retryRequest ::
  "('s \<Rightarrow> (jsval + jsval) \<times> 's) \<Rightarrow> (int \<Rightarrow> 's \<Rightarrow> 's) \<Rightarrow> int option \<Rightarrow> int option \<Rightarrow> 's \<Rightarrow>
     (jsval + jsval) \<times> retry_event list \<times> 's" where
  "retryRequest requestFn wait maxRetries delay s =
     retry_loop requestFn wait
       (case maxRetries of Some n \<Rightarrow> n | None \<Rightarrow> 3)
       (case delay of Some d \<Rightarrow> d | None \<Rightarrow> 1000) 0 s"

text \<open>
  The state in which the attempt after \<open>j\<close> failed ones starts, when the loop is at index
  \<open>i\<close> in state \<open>s\<close>: each failed attempt leaves its state, and is followed by a wait of
  \<open>delay * 2 ^ i\<close> at loop index \<open>i\<close>.
\<close>

fun state_before ::
  "('s \<Rightarrow> (jsval + jsval) \<times> 's) \<Rightarrow> (int \<Rightarrow> 's \<Rightarrow> 's) \<Rightarrow> int \<Rightarrow> nat \<Rightarrow> nat \<Rightarrow> 's \<Rightarrow> 's" where
  "state_before requestFn wait delay i 0 s = s"
| "state_before requestFn wait delay i (Suc j) s =
     state_before requestFn wait delay (Suc i) j (wait (delay * 2 ^ i) (snd (requestFn s)))"

text \<open>
  What \<open>k + 1\<close> attempts look like from outside, the first at loop index \<open>i\<close>: a call of
  \<open>requestFn\<close> and a timer of \<open>delay * 2 ^ x\<close> for each index \<open>x\<close> of a failed attempt,
  then the last call, with no timer after it.
\<close>

definition attempts_trace :: "int \<Rightarrow> nat \<Rightarrow> nat \<Rightarrow> retry_event list" where
  "attempts_trace delay i k =
     concat (map (\<lambda>x. [RequestFn_called, SetTimeout (delay * 2 ^ x)]) [i..<i + k])
       @ [RequestFn_called]"

section \<open>Utils.isValidCreditCard: the Luhn checksum\<close>

text \<open>
  The source strips every non-digit with \<open>cardNumber.replace(/\D/g, '')\<close>, then walks the
  remaining digits from the last index down to 0, doubling every second digit.
\<close>

definition is_digit :: "char \<Rightarrow> bool" where
  "is_digit c = (c \<in> set ''0123456789'')"

definition parseInt :: "char \<Rightarrow> int" where
  \<comment> \<open>\<open>parseInt\<close> of a one-character string that is a decimal digit\<close>
  "parseInt c = int (of_char c) - 48"

function luhn_loop :: "string \<Rightarrow> int \<Rightarrow> int \<Rightarrow> bool \<Rightarrow> int" where
  "luhn_loop digits i sum_acc isEven =
     (if i \<ge> 0 then
        (let digit = parseInt (digits ! nat i);
             digit = (if isEven
                      then (let digit = digit * 2 in if digit > 9 then digit - 9 else digit)
                      else digit)
         in luhn_loop digits (i - 1) (sum_acc + digit) (\<not> isEven))
      else sum_acc)"
  by pat_completeness auto
termination
  by (relation "measure (\<lambda>(digits, i, sum_acc, isEven). nat (i + 1))") auto

definition isValidCreditCard :: "string \<Rightarrow> bool" where
  "isValidCreditCard cardNumber =
     (let digits = filter is_digit cardNumber
      in luhn_loop digits (int (length digits) - 1) 0 False mod 10 = 0)"

section \<open>Concrete states and browsers\<close>

text \<open>Small concrete inputs on which the model is evaluated.\<close>

definition example_world :: world where
  "example_world =
     \<lparr>baseUrl = ''https://api.test'', authToken = Some ''t0k'',
      cache = Map.empty,
      localStorage = [''authToken'' \<mapsto> ''t0k'', ''user'' \<mapsto> ''ann'', ''theme'' \<mapsto> ''dark''],
      location_href = ''/app/home.html'', clock = 1000\<rparr>"

definition example_response :: raw_response where
  "example_response =
     \<lparr>r_status = 200, r_statusText = ''OK'',
      r_headers = [(''content-type'', ''application/json; charset=utf-8'')],
      r_ok = True, r_json = Inr (JsObj [(''id'', JsNum 7)]), r_text = Inr ''id=7''\<rparr>"

definition example_envelope :: jsval where
  "example_envelope =
     JsObj [(''data'', JsObj [(''id'', JsNum 7)]), (''status'', JsNum 200),
            (''statusText'', JsStr ''OK''),
            (''headers'', JsObj [(''content-type'', JsStr ''application/json; charset=utf-8'')]),
            (''ok'', JsBool True)]"

text \<open>A browser whose \<open>fetch\<close> always resolves to \<open>example_response\<close>.\<close>

definition example_browser :: "(unit, string) browser" where
  "example_browser =
     \<lparr>fetch = (\<lambda>url config w. (Inr example_response, w)),
      AuthController = None,
      URLSearchParams_toString = (\<lambda>params. params),
      JSON_stringify = (\<lambda>params. ''{'' @ params @ ''}'')\<rparr>"

text \<open>A browser whose \<open>fetch\<close> always rejects with the given error.\<close>

definition failing_browser :: "jsval \<Rightarrow> (unit, string) browser" where
  "failing_browser error =
     \<lparr>fetch = (\<lambda>url config w. (Inl error, w)),
      AuthController = None,
      URLSearchParams_toString = (\<lambda>params. params),
      JSON_stringify = (\<lambda>params. ''{'' @ params @ ''}'')\<rparr>"

definition unauthorized_error :: jsval where
  "unauthorized_error =
     JsObj [(''message'', JsStr ''Unauthorized''), (''response'', JsObj [(''status'', JsNum 401)])]"

text \<open>
  Response interceptors for the examples: one whose success callback throws, one whose
  success callback returns \<open>'A'\<close>, and one with both callbacks, returning \<open>'B'\<close> and \<open>42\<close>.
\<close>

definition throwing_interceptor :: "unit response_interceptor" where
  "throwing_interceptor =
     \<lparr>onFulfilled = Some (\<lambda>envelope w. (Throws (JsStr ''boom''), w)), onRejected = None\<rparr>"

definition interceptor_A :: "unit response_interceptor" where
  "interceptor_A =
     \<lparr>onFulfilled = Some (\<lambda>envelope w. (Returns (JsStr ''A''), w)), onRejected = None\<rparr>"

definition interceptor_B :: "unit response_interceptor" where
  "interceptor_B =
     \<lparr>onFulfilled = Some (\<lambda>envelope w. (Returns (JsStr ''B''), w)),
      onRejected = Some (\<lambda>error w. (Returns (JsNum 42), w))\<rparr>"

text \<open>A client without request interceptors and with the given response interceptors.\<close>

definition client_with :: "unit response_interceptor list \<Rightarrow> unit api_client" where
  "client_with rs =
     \<lparr>world = example_world, requestInterceptors = [], responseInterceptors = rs\<rparr>"

text \<open>
  A callable that fails on its first \<open>failures\<close> calls and succeeds afterwards; the state
  counts the calls made, and each error carries the number of the attempt that raised it.
\<close>

definition flaky_requestFn :: "nat \<Rightarrow> nat \<Rightarrow> (jsval + jsval) \<times> nat" where
  "flaky_requestFn failures s =
     (if s < failures then Inl (JsNum (int (Suc s))) else Inr (JsStr ''ok''), Suc s)"

text \<open>A state whose cache holds a fresh entry with an empty string as its data.\<close>

definition world_with_empty_entry :: world where
  "world_with_empty_entry =
     example_world\<lparr>cache := [''k'' \<mapsto> \<lparr>data = JsStr [], timestamp = 1000, timeout = 300000\<rparr>]\<rparr>"

section \<open>The loops of request\<close>

lemma apply_request_interceptors_Inr:
  "apply_request_interceptors reqs i config w = (Inr config', tr, w') \<Longrightarrow>
     reqs = [] \<and> config' = config \<and> tr = [] \<and> w' = w"
  by (cases reqs) (auto simp: assign_config_def split: prod.splits completion.splits)

lemma apply_request_interceptors_Cons:
  "\<exists>e w'. apply_request_interceptors (f # fs) i config w =
     (Inl e, [RequestInterceptor_called i config], w')"
  by (auto simp: assign_config_def split: prod.splits completion.splits)

lemma apply_onFulfilled_first:
  "k < length rs \<Longrightarrow> onFulfilled (rs ! k) = Some f \<Longrightarrow> \<forall>j<k. onFulfilled (rs ! j) = None \<Longrightarrow>
     apply_onFulfilled rs i envelope w =
       (fst (f envelope w), [OnFulfilled_called (i + k) envelope], snd (f envelope w))"
proof (induction rs arbitrary: i k)
  case Nil
  then show ?case by simp
next
  case (Cons r rs)
  show ?case
  proof (cases k)
    case 0
    with Cons.prems show ?thesis by (simp split: prod.splits)
  next
    case (Suc k')
    from Cons.prems Suc have "onFulfilled r = None" by auto
    moreover from Cons.prems Suc have "k' < length rs" "onFulfilled (rs ! k') = Some f"
      "\<forall>j<k'. onFulfilled (rs ! j) = None" by auto
    ultimately show ?thesis using Cons.IH [of k' "Suc i"] Suc by simp
  qed
qed

lemma apply_onFulfilled_none:
  "\<forall>j<length rs. onFulfilled (rs ! j) = None \<Longrightarrow>
     apply_onFulfilled rs i envelope w = (Returns envelope, [], w)"
proof (induction rs arbitrary: i)
  case Nil
  then show ?case by simp
next
  case (Cons r rs)
  from Cons.prems have "onFulfilled r = None" by auto
  moreover from Cons.prems have "\<forall>j<length rs. onFulfilled (rs ! j) = None" by auto
  ultimately show ?case using Cons.IH by simp
qed

lemma apply_onRejected_first:
  "k < length rs \<Longrightarrow> onRejected (rs ! k) = Some f \<Longrightarrow> \<forall>j<k. onRejected (rs ! j) = None \<Longrightarrow>
     apply_onRejected rs i error w =
       (fst (f error w), [OnRejected_called (i + k) error], snd (f error w))"
proof (induction rs arbitrary: i k)
  case Nil
  then show ?case by simp
next
  case (Cons r rs)
  show ?case
  proof (cases k)
    case 0
    with Cons.prems show ?thesis by (simp split: prod.splits)
  next
    case (Suc k')
    from Cons.prems Suc have "onRejected r = None" by auto
    moreover from Cons.prems Suc have "k' < length rs" "onRejected (rs ! k') = Some f"
      "\<forall>j<k'. onRejected (rs ! j) = None" by auto
    ultimately show ?thesis using Cons.IH [of k' "Suc i"] Suc by simp
  qed
qed

lemma apply_onRejected_none:
  "\<forall>j<length rs. onRejected (rs ! j) = None \<Longrightarrow>
     apply_onRejected rs i error w = (Throws error, [], w)"
proof (induction rs arbitrary: i)
  case Nil
  then show ?case by simp
next
  case (Cons r rs)
  from Cons.prems have "onRejected r = None" by auto
  moreover from Cons.prems have "\<forall>j<length rs. onRejected (rs ! j) = None" by auto
  ultimately show ?case using Cons.IH by simp
qed

text \<open>The catch block calls failure callbacks only.\<close>

lemma apply_onRejected_events:
  "ev \<in> set (fst (snd (apply_onRejected rs i error w))) \<Longrightarrow> \<exists>j. ev = OnRejected_called j error"
  by (induction rs arbitrary: i) (auto split: option.splits prod.splits)

lemma catch_block_events:
  "ev \<in> set (fst (snd (catch_block rs error w))) \<Longrightarrow> \<exists>j. ev = OnRejected_called j error"
  using apply_onRejected_events [of ev rs 0 error w]
  by (simp add: catch_block_def split: prod.splits)

lemma request_reached:
  "apply_request_interceptors (requestInterceptors c) 0 (initial_config options) (world c)
      = (Inr config, tr0, w1) \<Longrightarrow>
   request br c endpoint options =
     (case try_block br (responseInterceptors c) (baseUrl (world c) @ endpoint) config w1 of
        (r, tr', w2) \<Rightarrow> (r, tr0 @ tr', w2))"
  by (simp add: request_def Let_def)

section \<open>Properties of request\<close>

lemmas ex_defs = client_with_def example_world_def example_browser_def failing_browser_def
  example_response_def example_envelope_def receive_def parse_body_def responseObj_def
  throwing_interceptor_def interceptor_A_def interceptor_B_def

text \<open>
  Claim C1. The registered request interceptors are meant to be applied to the config as a
  fold, in registration order, the network call receiving what the last one returns. The
  code does so only for the empty list: \<open>config\<close> is a \<open>const\<close>, so with one interceptor
  registered the first pass of the loop calls it and then throws a TypeError on the
  assignment, outside the \<open>try\<close>. The theorem evaluates \<open>request\<close> on the client as the
  script leaves it after \<open>ApiClient.init()\<close>: the promise rejects with that TypeError, the
  built-in interceptor has been called once, and \<open>fetch\<close> is never called.
\<close>

theorem request_after_init_rejects:
  "request example_browser (init example_browser (fresh_client example_world)) ''/user/profile'' [] =
     (Inl (TypeError ''Assignment to constant variable.''),
      [RequestInterceptor_called 0 (initial_config [])],
      world (init example_browser (fresh_client example_world)))"
  by (simp add: request_def init_def setupInterceptors_def addRequestInterceptor_def
      addResponseInterceptor_def fresh_client_def example_world_def auth_request_interceptor_def
      initial_config_def spread_def defaultHeaders_def assign_config_def)

text \<open>
  Claim C2, as amended. When the call receives a response envelope, \<open>request\<close> invokes the
  success callback of the first interceptor, in registration order, that defines one, and
  no other success callback. If that callback returns (a value or a promise), \<open>request\<close>
  settles as the callback's result does and no other callback runs. If it throws
  synchronously, the exception is caught by the \<open>catch\<close> block and handled as an error: the
  outcome is that of the failure path on the exception. If no interceptor defines a success
  callback the envelope itself is returned and no callback runs.
\<close>

theorem success_path_first_match:
  assumes "apply_request_interceptors (requestInterceptors c) 0 (initial_config options) (world c)
             = (Inr config, tr0, w1)"
    and "receive br (baseUrl (world c) @ endpoint) config w1 = (Inr envelope, w2)"
  shows "(\<forall>k f cmp w3.
            k < length (responseInterceptors c) \<and>
            onFulfilled (responseInterceptors c ! k) = Some f \<and>
            (\<forall>j<k. onFulfilled (responseInterceptors c ! j) = None) \<and>
            f envelope w2 = (cmp, w3) \<longrightarrow>
              ((\<forall>e. cmp \<noteq> Throws e) \<longrightarrow>
                 request br c endpoint options =
                   (settle cmp,
                    tr0 @ [Fetch_called (baseUrl (world c) @ endpoint) config,
                           OnFulfilled_called k envelope], w3)) \<and>
              (\<forall>e. cmp = Throws e \<longrightarrow>
                 request br c endpoint options =
                   (fst (catch_block (responseInterceptors c) e w3),
                    tr0 @ Fetch_called (baseUrl (world c) @ endpoint) config #
                      OnFulfilled_called k envelope #
                      fst (snd (catch_block (responseInterceptors c) e w3)),
                    snd (snd (catch_block (responseInterceptors c) e w3)))) \<and>
              (\<forall>j v. OnFulfilled_called j v \<in> set (fst (snd (request br c endpoint options)))
                 \<longrightarrow> j = k \<and> v = envelope)) \<and>
         ((\<forall>j<length (responseInterceptors c). onFulfilled (responseInterceptors c ! j) = None) \<longrightarrow>
            request br c endpoint options =
              (Inr envelope, tr0 @ [Fetch_called (baseUrl (world c) @ endpoint) config], w2))"
proof -
  let ?rs = "responseInterceptors c"
  let ?url = "baseUrl (world c) @ endpoint"
  note req = request_reached [OF assms(1), of br endpoint]
  have tr0: "tr0 = []" using assms(1) apply_request_interceptors_Inr by blast
  have none: "request br c endpoint options = (Inr envelope, tr0 @ [Fetch_called ?url config], w2)"
    if "\<forall>j<length ?rs. onFulfilled (?rs ! j) = None"
  proof -
    have "apply_onFulfilled ?rs 0 envelope w2 = (Returns envelope, [], w2)"
      using that by (rule apply_onFulfilled_none)
    then show ?thesis using assms(2) by (simp add: req try_block_def)
  qed
  have some: "((\<forall>e. cmp \<noteq> Throws e) \<longrightarrow>
                 request br c endpoint options =
                   (settle cmp, tr0 @ [Fetch_called ?url config, OnFulfilled_called k envelope], w3)) \<and>
              (\<forall>e. cmp = Throws e \<longrightarrow>
                 request br c endpoint options =
                   (fst (catch_block ?rs e w3),
                    tr0 @ Fetch_called ?url config # OnFulfilled_called k envelope #
                      fst (snd (catch_block ?rs e w3)),
                    snd (snd (catch_block ?rs e w3)))) \<and>
              (\<forall>j v. OnFulfilled_called j v \<in> set (fst (snd (request br c endpoint options)))
                 \<longrightarrow> j = k \<and> v = envelope)"
    if h: "k < length ?rs \<and> onFulfilled (?rs ! k) = Some f \<and>
           (\<forall>j<k. onFulfilled (?rs ! j) = None) \<and> f envelope w2 = (cmp, w3)"
    for k f cmp w3
  proof -
    have first: "apply_onFulfilled ?rs 0 envelope w2 = (cmp, [OnFulfilled_called k envelope], w3)"
      using h apply_onFulfilled_first [of k ?rs f 0 envelope w2] by simp
    have tb: "try_block br ?rs ?url config w1 =
        (case cmp of
           Throws e \<Rightarrow> (fst (catch_block ?rs e w3),
              Fetch_called ?url config # OnFulfilled_called k envelope # fst (snd (catch_block ?rs e w3)),
              snd (snd (catch_block ?rs e w3)))
         | _ \<Rightarrow> (settle cmp, [Fetch_called ?url config, OnFulfilled_called k envelope], w3))"
      using assms(2) first by (cases cmp) (simp_all add: try_block_def split: prod.splits)
    have a: "(\<forall>e. cmp \<noteq> Throws e) \<longrightarrow>
                 request br c endpoint options =
                   (settle cmp, tr0 @ [Fetch_called ?url config, OnFulfilled_called k envelope], w3)"
      by (cases cmp) (simp_all add: req tb)
    have b: "\<forall>e. cmp = Throws e \<longrightarrow>
                 request br c endpoint options =
                   (fst (catch_block ?rs e w3),
                    tr0 @ Fetch_called ?url config # OnFulfilled_called k envelope #
                      fst (snd (catch_block ?rs e w3)),
                    snd (snd (catch_block ?rs e w3)))"
      by (simp add: req tb)
    have c: "j = k \<and> v = envelope"
      if ev: "OnFulfilled_called j v \<in> set (fst (snd (request br c endpoint options)))" for j v
    proof (cases cmp)
      case (Throws e)
      with ev have "OnFulfilled_called j v = OnFulfilled_called k envelope \<or>
          OnFulfilled_called j v \<in> set (fst (snd (catch_block ?rs e w3)))"
        by (simp add: req tb tr0)
      then show ?thesis using catch_block_events [of "OnFulfilled_called j v" ?rs e w3] by auto
    next
      case (Returns x)
      with ev show ?thesis by (simp add: req tb tr0)
    next
      case (Rejects x)
      with ev show ?thesis by (simp add: req tb tr0)
    qed
    from a b c show ?thesis by blast
  qed
  from none some show ?thesis by blast
qed

theorem success_path_first_match_witness:
  "request example_browser (client_with [interceptor_A, interceptor_B]) ''/x'' [] =
     (Inr (JsStr ''A''),
      [Fetch_called ''https://api.test/x'' (initial_config []), OnFulfilled_called 0 example_envelope],
      example_world) \<and>
   request example_browser (client_with [throwing_interceptor, interceptor_B]) ''/x'' [] =
     (Inr (JsNum 42),
      [Fetch_called ''https://api.test/x'' (initial_config []), OnFulfilled_called 0 example_envelope,
       OnRejected_called 1 (JsStr ''boom'')],
      example_world) \<and>
   request example_browser (client_with []) ''/x'' [] =
     (Inr example_envelope, [Fetch_called ''https://api.test/x'' (initial_config [])], example_world)"
proof -
  have reach: "apply_request_interceptors (requestInterceptors (client_with rs)) 0
      (initial_config []) (world (client_with rs)) = (Inr (initial_config []), [], example_world)" for rs
    by (simp add: client_with_def)
  have recv: "receive example_browser (baseUrl (world (client_with rs)) @ ''/x'') (initial_config [])
      example_world = (Inr example_envelope, example_world)" for rs
    by (simp add: ex_defs)
  note t = success_path_first_match [OF reach recv]
  have a: "request example_browser (client_with [interceptor_A, interceptor_B]) ''/x'' [] =
     (Inr (JsStr ''A''),
      [Fetch_called ''https://api.test/x'' (initial_config []), OnFulfilled_called 0 example_envelope],
      example_world)"
    using t [of "[interceptor_A, interceptor_B]", THEN conjunct1, rule_format,
        of 0 "\<lambda>envelope w. (Returns (JsStr ''A''), w)" "Returns (JsStr ''A'')" example_world,
        THEN conjunct1]
    by (simp add: client_with_def interceptor_A_def example_world_def)
  have b: "request example_browser (client_with [throwing_interceptor, interceptor_B]) ''/x'' [] =
     (Inr (JsNum 42),
      [Fetch_called ''https://api.test/x'' (initial_config []), OnFulfilled_called 0 example_envelope,
       OnRejected_called 1 (JsStr ''boom'')],
      example_world)"
    using t [of "[throwing_interceptor, interceptor_B]", THEN conjunct1, rule_format,
        of 0 "\<lambda>envelope w. (Throws (JsStr ''boom''), w)" "Throws (JsStr ''boom'')" example_world,
        THEN conjunct2, THEN conjunct1, rule_format, of "JsStr ''boom''"]
    by (simp add: client_with_def throwing_interceptor_def interceptor_B_def example_world_def
        catch_block_def)
  have c: "request example_browser (client_with []) ''/x'' [] =
     (Inr example_envelope, [Fetch_called ''https://api.test/x'' (initial_config [])], example_world)"
    using t [of "[]", THEN conjunct2]
    by (simp add: client_with_def example_world_def)
  from a b c show ?thesis by blast
qed

text \<open>
  Claim C2 as stated says that only the first interceptor with a success callback is
  invoked and that its result is returned. With a first interceptor whose success callback
  throws and a second interceptor that defines a failure callback, the second
  interceptor's failure callback is invoked and its value \<open>42\<close> is what \<open>request\<close> returns.
\<close>

theorem throwing_success_callback_counterexample:
  "fst (request example_browser (client_with [throwing_interceptor, interceptor_B]) ''/x'' [])
     = Inr (JsNum 42) \<and>
   fst (snd (request example_browser (client_with [throwing_interceptor, interceptor_B]) ''/x'' []))
     = [Fetch_called ''https://api.test/x'' (initial_config []),
        OnFulfilled_called 0 example_envelope,
        OnRejected_called 1 (JsStr ''boom'')]"
  by (simp add: request_def try_block_def catch_block_def ex_defs)

text \<open>
  Claim C3. When an error is thrown before there is a response envelope (\<open>fetch\<close> rejects
  or the body does not parse), \<open>request\<close> invokes the failure callback of the first
  interceptor, in registration order, that defines one, invokes nothing else, and settles
  as that callback's result does: a returned value resolves the promise, a rejected promise
  or a throw rejects it. If no interceptor defines a failure callback the promise rejects
  with the original error.
\<close>

theorem failure_path_first_match:
  assumes "apply_request_interceptors (requestInterceptors c) 0 (initial_config options) (world c)
             = (Inr config, tr0, w1)"
    and "receive br (baseUrl (world c) @ endpoint) config w1 = (Inl error, w2)"
  shows "(\<forall>k g.
            k < length (responseInterceptors c) \<and>
            onRejected (responseInterceptors c ! k) = Some g \<and>
            (\<forall>j<k. onRejected (responseInterceptors c ! j) = None) \<longrightarrow>
              request br c endpoint options =
                (settle (fst (g error w2)),
                 tr0 @ [Fetch_called (baseUrl (world c) @ endpoint) config,
                        OnRejected_called k error],
                 snd (g error w2))) \<and>
         ((\<forall>j<length (responseInterceptors c). onRejected (responseInterceptors c ! j) = None) \<longrightarrow>
            request br c endpoint options =
              (Inl error, tr0 @ [Fetch_called (baseUrl (world c) @ endpoint) config], w2))"
proof -
  let ?rs = "responseInterceptors c"
  let ?url = "baseUrl (world c) @ endpoint"
  note req = request_reached [OF assms(1), of br endpoint]
  have tb: "try_block br ?rs ?url config w1 =
      (settle (fst (apply_onRejected ?rs 0 error w2)),
       Fetch_called ?url config # fst (snd (apply_onRejected ?rs 0 error w2)),
       snd (snd (apply_onRejected ?rs 0 error w2)))"
    using assms(2) by (simp add: try_block_def catch_block_def split: prod.splits)
  have some: "request br c endpoint options =
      (settle (fst (g error w2)), tr0 @ [Fetch_called ?url config, OnRejected_called k error],
       snd (g error w2))"
    if "k < length ?rs \<and> onRejected (?rs ! k) = Some g \<and> (\<forall>j<k. onRejected (?rs ! j) = None)"
    for k g
    using that apply_onRejected_first [of k ?rs g 0 error w2] by (simp add: req tb)
  have none: "request br c endpoint options = (Inl error, tr0 @ [Fetch_called ?url config], w2)"
    if "\<forall>j<length ?rs. onRejected (?rs ! j) = None"
    using apply_onRejected_none [OF that, of 0 error w2] by (simp add: req tb)
  from some none show ?thesis by blast
qed

theorem failure_path_first_match_witness:
  "request (failing_browser (JsStr ''offline'')) (client_with [interceptor_A, interceptor_B]) ''/x'' [] =
     (Inr (JsNum 42),
      [Fetch_called ''https://api.test/x'' (initial_config []), OnRejected_called 1 (JsStr ''offline'')],
      example_world) \<and>
   request (failing_browser (JsStr ''offline'')) (client_with [interceptor_A]) ''/x'' [] =
     (Inl (JsStr ''offline''), [Fetch_called ''https://api.test/x'' (initial_config [])], example_world)"
proof -
  have reach: "apply_request_interceptors (requestInterceptors (client_with rs)) 0
      (initial_config []) (world (client_with rs)) = (Inr (initial_config []), [], example_world)" for rs
    by (simp add: client_with_def)
  have recv: "receive (failing_browser (JsStr ''offline'')) (baseUrl (world (client_with rs)) @ ''/x'')
      (initial_config []) example_world = (Inl (JsStr ''offline''), example_world)" for rs
    by (simp add: ex_defs)
  note t = failure_path_first_match [OF reach recv]
  have a: "request (failing_browser (JsStr ''offline'')) (client_with [interceptor_A, interceptor_B]) ''/x'' [] =
     (Inr (JsNum 42),
      [Fetch_called ''https://api.test/x'' (initial_config []), OnRejected_called 1 (JsStr ''offline'')],
      example_world)"
    using t [of "[interceptor_A, interceptor_B]", THEN conjunct1, rule_format,
        of 1 "\<lambda>error w. (Returns (JsNum 42), w)"]
    by (simp add: client_with_def interceptor_A_def interceptor_B_def example_world_def)
  have b: "request (failing_browser (JsStr ''offline'')) (client_with [interceptor_A]) ''/x'' [] =
     (Inl (JsStr ''offline''), [Fetch_called ''https://api.test/x'' (initial_config [])], example_world)"
    using t [of "[interceptor_A]", THEN conjunct2]
    by (simp add: client_with_def interceptor_A_def example_world_def)
  from a b show ?thesis by blast
qed

section \<open>The client after init\<close>

lemmas init_defs = init_def setupInterceptors_def addRequestInterceptor_def
  addResponseInterceptor_def fresh_client_def

lemma responseInterceptors_register:
  "responseInterceptors (fold register regs c) =
     responseInterceptors c @ drop (length (responseInterceptors c)) (responseInterceptors (fold register regs c))"
proof (induction regs arbitrary: c)
  case Nil
  then show ?case by simp
next
  case (Cons reg regs)
  have step: "\<exists>new. responseInterceptors (register reg c) = responseInterceptors c @ new"
    by (cases reg) (simp_all add: addRequestInterceptor_def addResponseInterceptor_def)
  then obtain new where new: "responseInterceptors (register reg c) = responseInterceptors c @ new"
    by blast
  have "responseInterceptors (fold register regs (register reg c)) =
      responseInterceptors (register reg c) @
        drop (length (responseInterceptors (register reg c)))
          (responseInterceptors (fold register regs (register reg c)))"
    by (rule Cons.IH)
  then have "\<exists>rest. responseInterceptors (fold register (reg # regs) c) = responseInterceptors c @ rest"
    using new by (metis append.assoc fold_simps(2))
  then show ?case by auto
qed

lemma responseInterceptors_after_init:
  "\<exists>rest. responseInterceptors (fold register regs (init br (fresh_client w0)))
     = builtin_response_interceptor br # rest"
proof -
  have "responseInterceptors (init br (fresh_client w0)) = [builtin_response_interceptor br]"
    by (simp add: init_def setupInterceptors_def addRequestInterceptor_def
        addResponseInterceptor_def fresh_client_def builtin_response_interceptor_def)
  then show ?thesis
    using responseInterceptors_register [of regs "init br (fresh_client w0)"]
    by (metis append_Cons append_Nil)
qed

lemma apply_onFulfilled_builtin:
  "apply_onFulfilled (builtin_response_interceptor br # rest) 0 envelope w =
     (Returns envelope, [OnFulfilled_called 0 envelope], w)"
  by (simp add: builtin_response_interceptor_def builtin_onFulfilled_def)

lemma apply_onRejected_builtin:
  "apply_onRejected (builtin_response_interceptor br # rest) 0 error w =
     (fst (builtin_onRejected br error w), [OnRejected_called 0 error],
      snd (builtin_onRejected br error w))"
  by (simp add: builtin_response_interceptor_def split: prod.splits)

lemma try_block_builtin:
  "try_block br (builtin_response_interceptor br # rest) url config w =
     (case receive br url config w of
        (Inl error, w1) \<Rightarrow>
          (settle (fst (builtin_onRejected br error w1)),
           [Fetch_called url config, OnRejected_called 0 error],
           snd (builtin_onRejected br error w1))
      | (Inr envelope, w1) \<Rightarrow>
          (Inr envelope, [Fetch_called url config, OnFulfilled_called 0 envelope], w1))"
proof -
  obtain r w1 where recv: "receive br url config w = (r, w1)"
    by (cases "receive br url config w")
  show ?thesis
  proof (cases r)
    case (Inl error)
    with recv show ?thesis
      unfolding try_block_def catch_block_def apply_onRejected_builtin by simp
  next
    case (Inr envelope)
    with recv show ?thesis
      unfolding try_block_def apply_onFulfilled_builtin by simp
  qed
qed

lemma request_builtin_events:
  assumes "responseInterceptors c = builtin_response_interceptor br # rest"
    and "ev \<in> set (fst (snd (request br c endpoint options)))"
  shows "(\<exists>i v. ev = RequestInterceptor_called i v) \<or> (\<exists>u v. ev = Fetch_called u v) \<or>
         (\<exists>v. ev = OnFulfilled_called 0 v) \<or> (\<exists>v. ev = OnRejected_called 0 v)"
proof (cases "requestInterceptors c")
  case Nil
  obtain r w1 where recv:
      "receive br (baseUrl (world c) @ endpoint) (initial_config options) (world c) = (r, w1)"
    by (cases "receive br (baseUrl (world c) @ endpoint) (initial_config options) (world c)")
  with assms Nil show ?thesis
    by (cases r) (auto simp: request_def try_block_builtin Let_def)
next
  case (Cons f fs)
  obtain e w' where "apply_request_interceptors (f # fs) 0 (initial_config options) (world c) =
     (Inl e, [RequestInterceptor_called 0 (initial_config options)], w')"
    using apply_request_interceptors_Cons by blast
  with assms Cons show ?thesis
    by (simp add: request_def)
qed

text \<open>
  Claim C5. After \<open>init\<close> has run on the freshly loaded class, and after any further
  registrations, the list of response interceptors begins with the built-in pair, whose
  success callback is defined and is the identity on the envelope. For any request
  interceptors and any state at the time of the call, \<open>request\<close> then never invokes the
  success callback or the failure callback of an interceptor at a later position \<open>j > 0\<close>,
  that is, of any interceptor registered after \<open>init\<close>.
\<close>

theorem later_response_interceptors_never_invoked:
  assumes "c = fold register regs (init br (fresh_client w0))"
    and "0 < j"
  shows "take 1 (responseInterceptors c) = [builtin_response_interceptor br] \<and>
         onFulfilled (builtin_response_interceptor br) = Some builtin_onFulfilled \<and>
         builtin_onFulfilled envelope w' = (Returns envelope, w') \<and>
         OnFulfilled_called j v \<notin>
           set (fst (snd (request br (c\<lparr>requestInterceptors := reqs, world := w\<rparr>) endpoint options))) \<and>
         OnRejected_called j v \<notin>
           set (fst (snd (request br (c\<lparr>requestInterceptors := reqs, world := w\<rparr>) endpoint options)))"
proof -
  obtain rest where rs: "responseInterceptors c = builtin_response_interceptor br # rest"
    using assms(1) responseInterceptors_after_init by blast
  have "responseInterceptors (c\<lparr>requestInterceptors := reqs, world := w\<rparr>)
      = builtin_response_interceptor br # rest"
    using rs by simp
  from request_builtin_events [OF this] assms(2)
  have "OnFulfilled_called j v \<notin>
           set (fst (snd (request br (c\<lparr>requestInterceptors := reqs, world := w\<rparr>) endpoint options))) \<and>
        OnRejected_called j v \<notin>
           set (fst (snd (request br (c\<lparr>requestInterceptors := reqs, world := w\<rparr>) endpoint options)))"
    by blast
  then show ?thesis
    using rs by (simp add: builtin_response_interceptor_def builtin_onFulfilled_def)
qed

theorem later_response_interceptors_never_invoked_witness:
  "OnFulfilled_called 1 example_envelope \<notin>
     set (fst (snd (request example_browser
       ((fold register [Register_response (onFulfilled interceptor_B) (onRejected interceptor_B)]
           (init example_browser (fresh_client example_world)))
          \<lparr>requestInterceptors := [], world := example_world\<rparr>) ''/x'' []))) \<and>
   fst (snd (request example_browser
       ((fold register [Register_response (onFulfilled interceptor_B) (onRejected interceptor_B)]
           (init example_browser (fresh_client example_world)))
          \<lparr>requestInterceptors := [], world := example_world\<rparr>) ''/x'' [])) =
     [Fetch_called ''https://api.test/x'' (initial_config []), OnFulfilled_called 0 example_envelope]"
proof -
  let ?c = "fold register [Register_response (onFulfilled interceptor_B) (onRejected interceptor_B)]
           (init example_browser (fresh_client example_world))"
  let ?tr = "fst (snd (request example_browser
          (?c\<lparr>requestInterceptors := [], world := example_world\<rparr>) ''/x'' []))"
  have pos: "(0::nat) < 1" by simp
  have "OnFulfilled_called 1 example_envelope \<notin> set ?tr"
    using later_response_interceptors_never_invoked [OF refl pos,
        where regs = "[Register_response (onFulfilled interceptor_B) (onRejected interceptor_B)]"
          and br = example_browser and ?w0.0 = example_world and v = example_envelope
          and reqs = "[]" and w = example_world and endpoint = "''/x''" and options = "[]",
        THEN conjunct2, THEN conjunct2, THEN conjunct2, THEN conjunct1]
    by this
  moreover have "?tr =
     [Fetch_called ''https://api.test/x'' (initial_config []), OnFulfilled_called 0 example_envelope]"
    by (simp add: request_def try_block_def init_defs builtin_onFulfilled_def ex_defs)
  ultimately show ?thesis by blast
qed

text \<open>
  Claim C6. On the client after \<open>init\<close> (and any further registrations), take a call that
  reaches the failure path with an error thrown before there is an envelope. If
  \<open>error.response?.status\<close> is 401 the promise rejects with the error and the state
  afterwards is that left by \<open>handleUnauthorized\<close>: \<open>authToken\<close> is \<open>null\<close>, the
  \<open>authToken\<close> and \<open>user\<close> entries of \<open>localStorage\<close> are removed, and then either
  \<open>window.location.href\<close> is \<open>'../index.html'\<close> (no \<open>AuthController\<close>) or
  \<open>AuthController.logout()\<close> has run on that state. For every other error the promise
  rejects and the state is the one the failed \<open>fetch\<close> left: nothing is cleared and
  nothing redirects.
\<close>

theorem unauthorized_error_recovery:
  assumes "c = fold register regs (init br (fresh_client w0))"
    and "apply_request_interceptors reqs 0 (initial_config options) w = (Inr config, tr0, w1)"
    and "receive br (baseUrl w @ endpoint) config w1 = (Inl error, w2)"
  shows "(response_status error = Inr (JsNum 401) \<longrightarrow>
            request br (c\<lparr>requestInterceptors := reqs, world := w\<rparr>) endpoint options =
              (Inl error,
               tr0 @ [Fetch_called (baseUrl w @ endpoint) config, OnRejected_called 0 error],
               handleUnauthorized br w2) \<and>
            (AuthController br = None \<longrightarrow>
               handleUnauthorized br w2 =
                 w2\<lparr>authToken := None,
                    localStorage := (localStorage w2)(''authToken'' := None, ''user'' := None),
                    location_href := ''../index.html''\<rparr>) \<and>
            (\<forall>logout. AuthController br = Some logout \<longrightarrow>
               handleUnauthorized br w2 =
                 logout (w2\<lparr>authToken := None,
                    localStorage := (localStorage w2)(''authToken'' := None, ''user'' := None)\<rparr>))) \<and>
         (response_status error \<noteq> Inr (JsNum 401) \<longrightarrow>
            isl (fst (request br (c\<lparr>requestInterceptors := reqs, world := w\<rparr>) endpoint options)) \<and>
            snd (snd (request br (c\<lparr>requestInterceptors := reqs, world := w\<rparr>) endpoint options)) = w2)"
proof -
  let ?c = "c\<lparr>requestInterceptors := reqs, world := w\<rparr>"
  obtain rest where rs: "responseInterceptors ?c = builtin_response_interceptor br # rest"
    using assms(1) responseInterceptors_after_init [of regs br w0] by auto
  have reach: "apply_request_interceptors (requestInterceptors ?c) 0 (initial_config options) (world ?c)
      = (Inr config, tr0, w1)"
    using assms(2) by simp
  have req: "request br ?c endpoint options =
      (settle (fst (builtin_onRejected br error w2)),
       tr0 @ [Fetch_called (baseUrl w @ endpoint) config, OnRejected_called 0 error],
       snd (builtin_onRejected br error w2))"
    using assms(3) by (simp add: request_reached [OF reach] rs try_block_builtin)
  have a: "request br ?c endpoint options =
      (Inl error, tr0 @ [Fetch_called (baseUrl w @ endpoint) config, OnRejected_called 0 error],
       handleUnauthorized br w2)"
    if "response_status error = Inr (JsNum 401)"
    using that by (simp add: req builtin_onRejected_def)
  have b: "isl (fst (request br ?c endpoint options)) \<and> snd (snd (request br ?c endpoint options)) = w2"
    if "response_status error \<noteq> Inr (JsNum 401)"
    using that by (cases "response_status error") (simp_all add: req builtin_onRejected_def)
  have c: "AuthController br = None \<longrightarrow>
      handleUnauthorized br w2 =
        w2\<lparr>authToken := None,
           localStorage := (localStorage w2)(''authToken'' := None, ''user'' := None),
           location_href := ''../index.html''\<rparr>"
    by (simp add: handleUnauthorized_def removeItem_def)
  have d: "\<forall>logout. AuthController br = Some logout \<longrightarrow>
      handleUnauthorized br w2 =
        logout (w2\<lparr>authToken := None,
           localStorage := (localStorage w2)(''authToken'' := None, ''user'' := None)\<rparr>)"
    by (simp add: handleUnauthorized_def removeItem_def)
  from a b c d show ?thesis by blast
qed

theorem unauthorized_error_recovery_witness:
  "request (failing_browser unauthorized_error)
      ((init (failing_browser unauthorized_error) (fresh_client example_world))
         \<lparr>requestInterceptors := [], world := example_world\<rparr>) ''/x'' [] =
     (Inl unauthorized_error,
      [Fetch_called ''https://api.test/x'' (initial_config []), OnRejected_called 0 unauthorized_error],
      example_world\<lparr>authToken := None,
         localStorage := (localStorage example_world)(''authToken'' := None, ''user'' := None),
         location_href := ''../index.html''\<rparr>) \<and>
   snd (snd (request (failing_browser (JsStr ''offline''))
      ((init (failing_browser (JsStr ''offline'')) (fresh_client example_world))
         \<lparr>requestInterceptors := [], world := example_world\<rparr>) ''/x'' [])) = example_world"
proof -
  have reach: "apply_request_interceptors [] 0 (initial_config []) example_world =
      (Inr (initial_config []), [], example_world)"
    by simp
  have recv: "receive (failing_browser error) (baseUrl example_world @ ''/x'') (initial_config [])
      example_world = (Inl error, example_world)" for error
    by (simp add: receive_def failing_browser_def)
  have c: "init br (fresh_client example_world) = fold register [] (init br (fresh_client example_world))"
    for br :: "(unit, string) browser"
    by simp
  have s401: "response_status unauthorized_error = Inr (JsNum 401)"
    by (simp add: response_status_def unauthorized_error_def)
  have sother: "response_status (JsStr ''offline'') \<noteq> Inr (JsNum 401)"
    by (simp add: response_status_def)
  have noac: "AuthController (failing_browser error) = None" for error
    by (simp add: failing_browser_def)
  note t1 = unauthorized_error_recovery [OF c reach recv, THEN conjunct1, THEN mp, OF s401]
  note t2 = unauthorized_error_recovery [OF c reach recv, THEN conjunct2, THEN mp, OF sother]
  from t1 [THEN conjunct1] t1 [THEN conjunct2, THEN conjunct1, THEN mp, OF noac] t2 [THEN conjunct2]
  show ?thesis
    by (simp add: example_world_def)
qed

section \<open>The initial config\<close>

lemma map_of_spread: "map_of (spread obj src) = map_of obj ++ map_of (rev src)"
  unfolding spread_def
proof (induction src arbitrary: obj)
  case Nil
  then show ?case by simp
next
  case (Cons p src)
  obtain k v where p: "p = (k, v)" by (cases p)
  have "map_of (fold (\<lambda>(k, v). AList.update k v) src (AList.update k v obj))
      = map_of (AList.update k v obj) ++ map_of (rev src)"
    by (rule Cons.IH)
  also have "\<dots> = map_of obj ++ map_of (rev src @ [(k, v)])"
    by (simp add: update_conv' fun_eq_iff map_add_def split: option.splits)
  finally show ?case by (simp add: p)
qed

text \<open>
  Claim C4, as amended. The initial config is \<open>{method: 'GET', headers: defaults}\<close>
  overridden property by property by the caller's options: every property the caller
  supplies is taken as it is (for a key listed twice, its last binding), \<open>method\<close> is
  \<open>'GET'\<close> when the caller gives none, and \<open>headers\<close> is a copy of the default headers
  (\<open>Content-Type\<close> and \<open>Accept\<close>, both \<open>application/json\<close>) when the caller gives none. A
  \<open>headers\<close> property of the caller replaces the default headers as a whole; the two maps
  are not merged key by key.
\<close>

theorem initial_config_shallow_merge:
  "(\<forall>k v. map_of (rev options) k = Some v \<longrightarrow> get_prop (initial_config options) k = Inr v) \<and>
   (map_of (rev options) ''headers'' = None \<longrightarrow>
      get_prop (initial_config options) ''headers'' = Inr (JsObj defaultHeaders)) \<and>
   (map_of (rev options) ''method'' = None \<longrightarrow>
      get_prop (initial_config options) ''method'' = Inr (JsStr ''GET''))"
proof -
  have copy: "spread [] defaultHeaders = defaultHeaders"
    by (simp add: spread_def defaultHeaders_def)
  show ?thesis
    by (simp add: initial_config_def map_of_spread map_add_def copy)
qed

theorem initial_config_shallow_merge_witness:
  "get_prop (initial_config [(''method'', JsStr ''POST''), (''body'', JsStr ''x'')]) ''method''
     = Inr (JsStr ''POST'') \<and>
   get_prop (initial_config [(''method'', JsStr ''POST''), (''body'', JsStr ''x'')]) ''headers''
     = Inr (JsObj [(''Content-Type'', JsStr ''application/json''),
                   (''Accept'', JsStr ''application/json'')]) \<and>
   get_prop (initial_config [(''headers'', JsObj [(''Authorization'', JsStr ''Bearer t0k'')])]) ''headers''
     = Inr (JsObj [(''Authorization'', JsStr ''Bearer t0k'')]) \<and>
   get_prop (initial_config [(''headers'', JsObj [(''Authorization'', JsStr ''Bearer t0k'')])]) ''method''
     = Inr (JsStr ''GET'')"
  using initial_config_shallow_merge [of "[(''method'', JsStr ''POST''), (''body'', JsStr ''x'')]",
      THEN conjunct1, rule_format, of "''method''" "JsStr ''POST''"]
    initial_config_shallow_merge [of "[(''method'', JsStr ''POST''), (''body'', JsStr ''x'')]",
      THEN conjunct2, THEN conjunct1]
    initial_config_shallow_merge [of "[(''headers'', JsObj [(''Authorization'', JsStr ''Bearer t0k'')])]",
      THEN conjunct1, rule_format, of "''headers''" "JsObj [(''Authorization'', JsStr ''Bearer t0k'')]"]
    initial_config_shallow_merge [of "[(''headers'', JsObj [(''Authorization'', JsStr ''Bearer t0k'')])]",
      THEN conjunct2, THEN conjunct2]
  by (simp add: defaultHeaders_def)

text \<open>
  Claim C4 as stated says that default header keys the caller did not supply are
  preserved. With options whose \<open>headers\<close> hold only \<open>Authorization\<close>, the config handed to
  \<open>fetch\<close> has exactly those headers, and \<open>Content-Type\<close> is not among them.
\<close>

theorem headers_option_replaces_defaults_counterexample:
  "fst (snd (request example_browser (client_with []) ''/x''
       [(''headers'', JsObj [(''Authorization'', JsStr ''Bearer t0k'')])])) =
     [Fetch_called ''https://api.test/x''
        (JsObj [(''method'', JsStr ''GET''),
                (''headers'', JsObj [(''Authorization'', JsStr ''Bearer t0k'')])])] \<and>
   get_prop (JsObj [(''Authorization'', JsStr ''Bearer t0k'')]) ''Content-Type'' = Inr JsUndefined"
  by (simp add: request_def try_block_def ex_defs initial_config_def spread_def defaultHeaders_def)

section \<open>Properties of the cache\<close>

text \<open>
  Claim C7, as amended. Write \<open>v\<close> under \<open>k\<close> with a time to live \<open>t\<close>, and read \<open>k\<close> back in a later
  state in which the entry has not been written again. Read at once, with \<open>t\<close> not
  negative, the read returns \<open>v\<close> and changes nothing. In general the read returns \<open>v\<close> when
  the time elapsed since the write is at most \<open>t\<close>; when more than \<open>t\<close> has elapsed it
  returns \<open>null\<close> and deletes the entry, so that reading again, with no further time
  passing, returns \<open>null\<close> as well.
\<close>

theorem cache_write_then_read:
  assumes "w1 = setCache k v (Some t) w"
    and "cache w2 k = cache w1 k"
  shows "(0 \<le> t \<longrightarrow> getCache k w1 = (v, w1)) \<and>
         (clock w2 - clock w \<le> t \<longrightarrow> getCache k w2 = (v, w2)) \<and>
         (clock w2 - clock w > t \<longrightarrow>
            fst (getCache k w2) = JsNull \<and>
            cache (snd (getCache k w2)) k = None \<and>
            fst (getCache k (snd (getCache k w2))) = JsNull)"
  using assms by (simp add: setCache_def getCache_def)

theorem cache_write_then_read_witness:
  "getCache ''/feed'' (setCache ''/feed'' (JsStr ''v'') (Some 100) example_world) =
     (JsStr ''v'', setCache ''/feed'' (JsStr ''v'') (Some 100) example_world) \<and>
   fst (getCache ''/feed'' ((setCache ''/feed'' (JsStr ''v'') (Some 100) example_world)\<lparr>clock := 1100\<rparr>))
     = JsStr ''v'' \<and>
   fst (getCache ''/feed'' ((setCache ''/feed'' (JsStr ''v'') (Some 100) example_world)\<lparr>clock := 1101\<rparr>))
     = JsNull \<and>
   fst (getCache ''/feed'' (snd (getCache ''/feed''
      ((setCache ''/feed'' (JsStr ''v'') (Some 100) example_world)\<lparr>clock := 1101\<rparr>)))) = JsNull"
proof -
  let ?w1 = "setCache ''/feed'' (JsStr ''v'') (Some 100) example_world"
  have same: "cache (?w1\<lparr>clock := c\<rparr>) ''/feed'' = cache ?w1 ''/feed''" for c
    by simp
  have a: "getCache ''/feed'' ?w1 = (JsStr ''v'', ?w1)"
    using cache_write_then_read [where k = "''/feed''" and v = "JsStr ''v''" and t = 100
          and w = example_world, OF refl refl, THEN conjunct1]
    by simp
  have b: "fst (getCache ''/feed'' (?w1\<lparr>clock := 1100\<rparr>)) = JsStr ''v''"
    using cache_write_then_read [where k = "''/feed''" and v = "JsStr ''v''" and t = 100
          and w = example_world, OF refl same [of 1100], THEN conjunct2, THEN conjunct1]
    by (simp add: example_world_def)
  have c: "fst (getCache ''/feed'' (?w1\<lparr>clock := 1101\<rparr>)) = JsNull \<and>
      fst (getCache ''/feed'' (snd (getCache ''/feed'' (?w1\<lparr>clock := 1101\<rparr>)))) = JsNull"
    using cache_write_then_read [where k = "''/feed''" and v = "JsStr ''v''" and t = 100
          and w = example_world, OF refl same [of 1101], THEN conjunct2, THEN conjunct2]
    by (simp add: example_world_def)
  from a b c show ?thesis by blast
qed

text \<open>
  Claim C7 as stated has the read that follows a write at once return the value for every
  time to live. \<open>setCache\<close> accepts a negative one: with \<open>t = -1\<close> the elapsed time 0
  already exceeds it, so the read made in the very state the write left returns \<open>null\<close>
  and deletes the entry.
\<close>

theorem negative_ttl_immediate_read_counterexample:
  "fst (getCache ''/feed'' (setCache ''/feed'' (JsStr ''v'') (Some (- 1)) example_world)) = JsNull \<and>
   cache (snd (getCache ''/feed'' (setCache ''/feed'' (JsStr ''v'') (Some (- 1)) example_world)))
     ''/feed'' = None"
  by (simp add: getCache_def setCache_def)

lemma get_example:
  "get example_browser ((client_with [])\<lparr>world := w\<rparr>) ''/feed'' ''p'' =
     (Inr example_envelope,
      [Fetch_called (baseUrl w @ ''/feed?p'') (initial_config [(''method'', JsStr ''GET'')])], w)"
  by (simp add: get_def request_def try_block_def ex_defs)

text \<open>
  Claim C8, as amended. \<open>getWithCache\<close> uses the explicit key when it is given and not
  the empty string, otherwise the endpoint followed by \<open>JSON.stringify(params)\<close>. When
  \<open>getCache\<close> returns a truthy value for that key, the result is
  \<open>{data: cached, fromCache: true}\<close> and no request is made. Otherwise (no entry, an
  expired entry, or a cached value that is falsy) it performs the GET; when the GET
  resolves to a response whose \<open>data\<close> can be read, it stores \<open>response.data\<close> alone under
  the key, with the default timeout, and returns the response itself; when the GET rejects,
  it rejects with the same error and stores nothing.
\<close>

theorem getWithCache_read_through:
  assumes "key = (if cacheKey = None \<or> cacheKey = Some [] then endpoint @ JSON_stringify br params
                  else the cacheKey)"
    and "getCache key (world c) = (cached, w1)"
  shows "(truthy cached \<longrightarrow>
            getWithCache br c endpoint params cacheKey =
              (Inr (JsObj [(''data'', cached), (''fromCache'', JsBool True)]), [], w1)) \<and>
         (\<not> truthy cached \<and> get br (c\<lparr>world := w1\<rparr>) endpoint params = (Inr response, tr, w2) \<and>
          get_prop response ''data'' = Inr d \<longrightarrow>
            getWithCache br c endpoint params cacheKey = (Inr response, tr, setCache key d None w2) \<and>
            cache (setCache key d None w2) key =
              Some \<lparr>data = d, timestamp = clock w2, timeout = 300000\<rparr>) \<and>
         (\<not> truthy cached \<and> get br (c\<lparr>world := w1\<rparr>) endpoint params = (Inl e, tr, w2) \<longrightarrow>
            getWithCache br c endpoint params cacheKey = (Inl e, tr, w2))"
proof -
  have key: "(case cacheKey of
                   Some k \<Rightarrow> if k \<noteq> [] then k else endpoint @ JSON_stringify br params
                 | None \<Rightarrow> endpoint @ JSON_stringify br params) = key"
    using assms(1) by (cases cacheKey) auto
  show ?thesis
    unfolding getWithCache_def key Let_def
    using assms(2) by (simp add: setCache_def cacheTimeout_def)
qed

theorem getWithCache_read_through_witness:
  "getWithCache example_browser (client_with []) ''/feed'' ''p'' None =
     (Inr example_envelope,
      [Fetch_called ''https://api.test/feed?p'' (initial_config [(''method'', JsStr ''GET'')])],
      setCache ''/feed{p}'' (JsObj [(''id'', JsNum 7)]) None example_world) \<and>
   getWithCache example_browser
       ((client_with [])\<lparr>world := setCache ''/feed{p}'' (JsObj [(''id'', JsNum 7)]) None example_world\<rparr>)
       ''/feed'' ''p'' None =
     (Inr (JsObj [(''data'', JsObj [(''id'', JsNum 7)]), (''fromCache'', JsBool True)]), [],
      setCache ''/feed{p}'' (JsObj [(''id'', JsNum 7)]) None example_world)"
proof -
  let ?w = "setCache ''/feed{p}'' (JsObj [(''id'', JsNum 7)]) None example_world"
  have key: "''/feed{p}'' =
      (if None = None \<or> None = Some [] then ''/feed'' @ JSON_stringify example_browser ''p''
       else the None)"
    by (simp add: example_browser_def)
  have miss: "getCache ''/feed{p}'' (world (client_with [])) = (JsNull, example_world)"
    by (simp add: getCache_def client_with_def example_world_def)
  have hit: "getCache ''/feed{p}'' (world ((client_with [])\<lparr>world := ?w\<rparr>)) = (JsObj [(''id'', JsNum 7)], ?w)"
    by (simp add: getCache_def setCache_def cacheTimeout_def)
  have fetched: "\<not> truthy JsNull \<and>
      get example_browser ((client_with [])\<lparr>world := example_world\<rparr>) ''/feed'' ''p'' =
        (Inr example_envelope,
         [Fetch_called ''https://api.test/feed?p'' (initial_config [(''method'', JsStr ''GET'')])],
         example_world) \<and>
      get_prop example_envelope ''data'' = Inr (JsObj [(''id'', JsNum 7)])"
    by (simp add: get_example) (simp add: example_world_def example_envelope_def)
  have a: "getWithCache example_browser (client_with []) ''/feed'' ''p'' None =
     (Inr example_envelope,
      [Fetch_called ''https://api.test/feed?p'' (initial_config [(''method'', JsStr ''GET'')])], ?w)"
    using getWithCache_read_through [OF key miss, THEN conjunct2, THEN conjunct1, THEN mp, OF fetched]
    by simp
  have b: "getWithCache example_browser ((client_with [])\<lparr>world := ?w\<rparr>) ''/feed'' ''p'' None =
     (Inr (JsObj [(''data'', JsObj [(''id'', JsNum 7)]), (''fromCache'', JsBool True)]), [], ?w)"
    using getWithCache_read_through [OF key hit, THEN conjunct1]
    by simp
  from a b show ?thesis by blast
qed

text \<open>
  Claim C8 as stated returns the cached value on every cache hit and uses every explicit
  key. With a fresh entry whose data is the empty string, \<open>getCache\<close> returns that value,
  yet \<open>getWithCache\<close> performs the GET and returns the envelope. With the empty string as
  explicit key, nothing is stored under that key: the entry goes under the composite key.
\<close>

theorem getWithCache_falsy_counterexample:
  "getCache ''k'' world_with_empty_entry = (JsStr [], world_with_empty_entry) \<and>
   fst (getWithCache example_browser ((client_with [])\<lparr>world := world_with_empty_entry\<rparr>)
          ''/feed'' ''p'' (Some ''k'')) = Inr example_envelope \<and>
   fst (snd (getWithCache example_browser ((client_with [])\<lparr>world := world_with_empty_entry\<rparr>)
          ''/feed'' ''p'' (Some ''k''))) =
     [Fetch_called ''https://api.test/feed?p'' (initial_config [(''method'', JsStr ''GET'')])] \<and>
   cache (snd (snd (getWithCache example_browser (client_with []) ''/feed'' ''p'' (Some [])))) [] = None \<and>
   map_option data
     (cache (snd (snd (getWithCache example_browser (client_with []) ''/feed'' ''p'' (Some []))))
        ''/feed{p}'') = Some (JsObj [(''id'', JsNum 7)])"
proof -
  have g: "getCache ''k'' world_with_empty_entry = (JsStr [], world_with_empty_entry)"
    by (simp add: getCache_def world_with_empty_entry_def example_world_def)
  have g2: "getCache ''/feed{p}'' example_world = (JsNull, example_world)"
    by (simp add: getCache_def example_world_def)
  have w: "world (client_with []) = example_world" "(client_with [])\<lparr>world := example_world\<rparr> = client_with []"
    by (simp_all add: client_with_def)
  have b: "baseUrl world_with_empty_entry = ''https://api.test''"
    by (simp add: world_with_empty_entry_def example_world_def)
  have d: "get_prop example_envelope ''data'' = Inr (JsObj [(''id'', JsNum 7)])"
    by (simp add: example_envelope_def)
  have j: "JSON_stringify example_browser ''p'' = ''{p}''"
    by (simp add: example_browser_def)
  have one: "getWithCache example_browser ((client_with [])\<lparr>world := world_with_empty_entry\<rparr>)
          ''/feed'' ''p'' (Some ''k'') =
      (Inr example_envelope,
       [Fetch_called ''https://api.test/feed?p'' (initial_config [(''method'', JsStr ''GET'')])],
       setCache ''k'' (JsObj [(''id'', JsNum 7)]) None world_with_empty_entry)"
    by (simp add: getWithCache_def g get_example b d)
  have two: "getWithCache example_browser (client_with []) ''/feed'' ''p'' (Some []) =
      (Inr example_envelope,
       [Fetch_called ''https://api.test/feed?p'' (initial_config [(''method'', JsStr ''GET'')])],
       setCache ''/feed{p}'' (JsObj [(''id'', JsNum 7)]) None example_world)"
    using get_example [of example_world]
    by (simp add: getWithCache_def j w g2 d) (simp add: example_world_def)
  show ?thesis
    unfolding one two using g by (simp add: setCache_def) (simp add: example_world_def)
qed

section \<open>Properties of retryRequest\<close>

declare retry_loop.simps [simp del]

lemma upt_shift: "[i..<i + Suc k] = i # [Suc i..<Suc i + k]"
  by (simp add: upt_conv_Cons)

lemma attempts_trace_Suc:
  "attempts_trace delay i (Suc k) =
     RequestFn_called # SetTimeout (delay * 2 ^ i) # attempts_trace delay (Suc i) k"
  unfolding attempts_trace_def upt_shift by simp

lemma count_attempts_trace:
  "length (filter (\<lambda>ev. ev = RequestFn_called) (attempts_trace delay i k)) = Suc k"
proof (induction k arbitrary: i)
  case 0
  show ?case by (simp add: attempts_trace_def)
next
  case (Suc k)
  then show ?case by (simp add: attempts_trace_Suc)
qed

lemma retry_loop_step:
  assumes "requestFn s = (Inl e, s')" and "int i < n - 1"
  shows "retry_loop requestFn wait n delay (int i) s =
      (case retry_loop requestFn wait n delay (int (Suc i)) (wait (delay * 2 ^ i) s') of
         (r, tr, s'') \<Rightarrow> (r, RequestFn_called # SetTimeout (delay * 2 ^ i) # tr, s''))"
  using assms by (subst retry_loop.simps) (simp add: add.commute)

lemma retry_loop_last:
  assumes "int i < n" and "fst (requestFn s) = Inr v \<or> int i = n - 1"
  shows "retry_loop requestFn wait n delay (int i) s =
      (fst (requestFn s), [RequestFn_called], snd (requestFn s))"
  using assms by (subst retry_loop.simps) (auto split: prod.splits sum.splits)

lemma retry_loop_attempts:
  assumes "int i + int k < n"
    and "\<forall>j<k. isl (fst (requestFn (state_before requestFn wait delay i j s)))"
    and "fst (requestFn (state_before requestFn wait delay i k s)) = Inr v \<or> int i + int k = n - 1"
  shows "retry_loop requestFn wait n delay (int i) s =
           (fst (requestFn (state_before requestFn wait delay i k s)),
            attempts_trace delay i k,
            snd (requestFn (state_before requestFn wait delay i k s)))"
  using assms
proof (induction k arbitrary: i s)
  case 0
  then show ?case
    using retry_loop_last [of i n requestFn s v wait delay] by (simp add: attempts_trace_def)
next
  case (Suc k)
  obtain e s' where f: "requestFn s = (Inl e, s')"
    using Suc.prems(2) [rule_format, of 0] by (cases "requestFn s") (auto simp: isl_def)
  have lt: "int (Suc i) + int k < n" using Suc.prems(1) by simp
  have fails: "\<forall>j<k. isl (fst (requestFn (state_before requestFn wait delay (Suc i) j
      (wait (delay * 2 ^ i) s'))))"
  proof (intro allI impI)
    fix j assume "j < k"
    then have "Suc j < Suc k" by simp
    from Suc.prems(2) [rule_format, OF this] show
      "isl (fst (requestFn (state_before requestFn wait delay (Suc i) j (wait (delay * 2 ^ i) s'))))"
      by (simp add: f)
  qed
  have last: "fst (requestFn (state_before requestFn wait delay (Suc i) k (wait (delay * 2 ^ i) s')))
      = Inr v \<or> int (Suc i) + int k = n - 1"
    using Suc.prems(3) by (simp add: f)
  note ih = Suc.IH [OF lt fails last]
  have "int i < n - 1" using Suc.prems(1) by simp
  then have step: "retry_loop requestFn wait n delay (int i) s =
      (case retry_loop requestFn wait n delay (int (Suc i)) (wait (delay * 2 ^ i) s') of
         (r, tr, s'') \<Rightarrow> (r, RequestFn_called # SetTimeout (delay * 2 ^ i) # tr, s''))"
    using f by (rule retry_loop_step [where requestFn = requestFn and s = s and e = e, rotated])
  show ?case
    unfolding step ih by (simp add: attempts_trace_Suc f)
qed

text \<open>
  Claim C9. Let \<open>n \<ge> 1\<close> be the maximal number of attempts and let the first \<open>k - 1\<close>
  attempts fail, for some \<open>k\<close> between 1 and \<open>n\<close>. If attempt \<open>k\<close> succeeds with \<open>v\<close>, then
  \<open>retryRequest\<close> resolves to \<open>v\<close> after exactly \<open>k\<close> calls of \<open>requestFn\<close>. If \<open>k = n\<close> and
  attempt \<open>n\<close> fails with \<open>e\<close>, it rejects with \<open>e\<close> after exactly \<open>n\<close> calls. In both cases
  the calls alternate with timers of \<open>delay * 2 ^ i\<close> between attempt \<open>i + 1\<close> and attempt
  \<open>i + 2\<close>, and no timer follows the last attempt.
\<close>

theorem retryRequest_attempts:
  assumes "0 < n" and "0 < k" and "k \<le> n"
    and "\<forall>j<k - 1. isl (fst (requestFn (state_before requestFn wait delay 0 j s)))"
  shows "(fst (requestFn (state_before requestFn wait delay 0 (k - 1) s)) = Inr v \<longrightarrow>
            fst (retryRequest requestFn wait (Some (int n)) (Some delay) s) = Inr v \<and>
            fst (snd (retryRequest requestFn wait (Some (int n)) (Some delay) s))
              = attempts_trace delay 0 (k - 1) \<and>
            length (filter (\<lambda>ev. ev = RequestFn_called)
              (fst (snd (retryRequest requestFn wait (Some (int n)) (Some delay) s)))) = k) \<and>
         (k = n \<and> fst (requestFn (state_before requestFn wait delay 0 (n - 1) s)) = Inl e \<longrightarrow>
            fst (retryRequest requestFn wait (Some (int n)) (Some delay) s) = Inl e \<and>
            fst (snd (retryRequest requestFn wait (Some (int n)) (Some delay) s))
              = attempts_trace delay 0 (n - 1) \<and>
            length (filter (\<lambda>ev. ev = RequestFn_called)
              (fst (snd (retryRequest requestFn wait (Some (int n)) (Some delay) s)))) = n)"
proof -
  have lt: "int 0 + int (k - 1) < int n" using assms by simp
  have run: "retry_loop requestFn wait (int n) delay (int 0) s =
           (fst (requestFn (state_before requestFn wait delay 0 (k - 1) s)),
            attempts_trace delay 0 (k - 1),
            snd (requestFn (state_before requestFn wait delay 0 (k - 1) s)))"
    if "fst (requestFn (state_before requestFn wait delay 0 (k - 1) s)) = Inr v \<or>
        int 0 + int (k - 1) = int n - 1" for v
    using retry_loop_attempts [OF lt assms(4) that] .
  have a: "fst (retryRequest requestFn wait (Some (int n)) (Some delay) s) = Inr v \<and>
            fst (snd (retryRequest requestFn wait (Some (int n)) (Some delay) s))
              = attempts_trace delay 0 (k - 1) \<and>
            length (filter (\<lambda>ev. ev = RequestFn_called)
              (fst (snd (retryRequest requestFn wait (Some (int n)) (Some delay) s)))) = k"
    if "fst (requestFn (state_before requestFn wait delay 0 (k - 1) s)) = Inr v"
    using run [of v] that assms(2) by (simp add: retryRequest_def count_attempts_trace)
  have b: "fst (retryRequest requestFn wait (Some (int n)) (Some delay) s) = Inl e \<and>
            fst (snd (retryRequest requestFn wait (Some (int n)) (Some delay) s))
              = attempts_trace delay 0 (n - 1) \<and>
            length (filter (\<lambda>ev. ev = RequestFn_called)
              (fst (snd (retryRequest requestFn wait (Some (int n)) (Some delay) s)))) = n"
    if "k = n \<and> fst (requestFn (state_before requestFn wait delay 0 (n - 1) s)) = Inl e"
  proof -
    have "int 0 + int (k - 1) = int n - 1" using that assms(1) by auto
    then show ?thesis
      using run [of JsNull] that assms(1) by (simp add: retryRequest_def count_attempts_trace)
  qed
  from a b show ?thesis by blast
qed

theorem retryRequest_attempts_witness:
  "retryRequest (flaky_requestFn 2) (\<lambda>ms s. s) (Some 3) (Some 10) 0 =
     (Inr (JsStr ''ok''),
      [RequestFn_called, SetTimeout 10, RequestFn_called, SetTimeout 20, RequestFn_called], 3) \<and>
   fst (retryRequest (flaky_requestFn 5) (\<lambda>ms s. s) (Some 3) (Some 10) 0) = Inl (JsNum 3) \<and>
   fst (snd (retryRequest (flaky_requestFn 5) (\<lambda>ms s. s) (Some 3) (Some 10) 0)) =
     [RequestFn_called, SetTimeout 10, RequestFn_called, SetTimeout 20, RequestFn_called]"
proof -
  have sb: "state_before (flaky_requestFn f) (\<lambda>ms s. s) 10 i j s = s + j" for f i j s
    by (induction j arbitrary: i s) (simp_all add: flaky_requestFn_def)
  have n: "(0::nat) < 3" "(3::nat) \<le> 3" by simp_all
  have fails: "\<forall>j<3 - 1. isl (fst (flaky_requestFn f (state_before (flaky_requestFn f) (\<lambda>ms s. s) 10 0 j 0)))"
    if "2 \<le> f" for f
    using that by (simp add: sb flaky_requestFn_def)
  have two: "(2::nat) \<le> 2" "(2::nat) \<le> 5" by simp_all
  have succeeds: "fst (flaky_requestFn 2 (state_before (flaky_requestFn 2) (\<lambda>ms s. s) 10 0 (3 - 1) 0))
      = Inr (JsStr ''ok'')"
    by (simp add: sb flaky_requestFn_def)
  have last_fails: "3 = (3::nat) \<and>
      fst (flaky_requestFn 5 (state_before (flaky_requestFn 5) (\<lambda>ms s. s) 10 0 (3 - 1) 0))
        = Inl (JsNum 3)"
    by (simp add: sb flaky_requestFn_def)
  note ok = retryRequest_attempts [where v = "JsStr ''ok''", OF n(1) n(1) n(2) fails [OF two(1)],
      THEN conjunct1, THEN mp, OF succeeds]
  note ko = retryRequest_attempts [where e = "JsNum 3", OF n(1) n(1) n(2) fails [OF two(2)],
      THEN conjunct2, THEN mp, OF last_fails]
  have tr: "attempts_trace 10 0 (3 - 1) =
      [RequestFn_called, SetTimeout 10, RequestFn_called, SetTimeout 20, RequestFn_called]"
    by (simp add: attempts_trace_def eval_nat_numeral)
  have final: "snd (snd (retryRequest (flaky_requestFn 2) (\<lambda>ms s. s) (Some 3) (Some 10) 0)) = 3"
    by (simp add: retryRequest_def retry_loop.simps [of _ _ 3] flaky_requestFn_def)
  have a: "retryRequest (flaky_requestFn 2) (\<lambda>ms s. s) (Some 3) (Some 10) 0 =
     (Inr (JsStr ''ok''),
      [RequestFn_called, SetTimeout 10, RequestFn_called, SetTimeout 20, RequestFn_called], 3)"
    using ok final unfolding tr by (simp add: prod_eq_iff)
  have b: "fst (retryRequest (flaky_requestFn 5) (\<lambda>ms s. s) (Some 3) (Some 10) 0) = Inl (JsNum 3) \<and>
   fst (snd (retryRequest (flaky_requestFn 5) (\<lambda>ms s. s) (Some 3) (Some 10) 0)) =
     [RequestFn_called, SetTimeout 10, RequestFn_called, SetTimeout 20, RequestFn_called]"
    using ko unfolding tr by simp
  from a b show ?thesis by blast
qed

section \<open>Properties of the Luhn check\<close>

text \<open>
  Claim C10. An input string without any decimal digit (the empty string included) is
  accepted by \<open>isValidCreditCard\<close>: the digit string is empty, the loop body never runs,
  the sum stays 0 and \<open>0 mod 10 = 0\<close>. Nothing rejects an input for being too short or for
  not being numeric.
\<close>

theorem isValidCreditCard_no_digits:
  "\<forall>c \<in> set cardNumber. \<not> is_digit c \<Longrightarrow> isValidCreditCard cardNumber"
proof -
  assume "\<forall>c \<in> set cardNumber. \<not> is_digit c"
  then have "filter is_digit cardNumber = []"
    by (simp add: filter_empty_conv)
  then show ?thesis
    by (simp add: isValidCreditCard_def)
qed

theorem isValidCreditCard_no_digits_witness:
  "isValidCreditCard ''abc-'' \<and> isValidCreditCard ''''"
  using isValidCreditCard_no_digits [of "''abc-''"] isValidCreditCard_no_digits [of "''''"]
  by (simp add: is_digit_def)

end
